theory Spec2Isabelle
  imports Main "HOL-Library.AList" "HOL-Library.Sublist"
begin

section \<open>The activity registry of \<^verbatim>\<open>src/app.py\<close>\<close>

text \<open>
  The module keeps one global dictionary \<^verbatim>\<open>activities\<close>, from an activity's name to a
  dictionary with the keys \<^verbatim>\<open>description\<close>, \<^verbatim>\<open>schedule\<close>, \<^verbatim>\<open>max_participants\<close> and
  \<^verbatim>\<open>participants\<close>. The inner dictionary is a record here; the outer one is an
  association list in the order of the literal (a Python dictionary keeps the order in
  which its keys were inserted), read with \<open>map_of\<close>. Python's integers are unbounded:
  \<open>int\<close>.
\<close>

record activity =
  description :: string
  schedule :: string
  max_participants :: int
  participants :: "string list"

type_synonym registry = "(string \<times> activity) list"

text \<open>The dictionary literal of lines 24 to 79, entry by entry.\<close>

definition activities :: registry where
  "activities =
    [(''Chess Club'',
        \<lparr>description = ''Learn strategies and compete in chess tournaments'',
         schedule = ''Fridays, 3:30 PM - 5:00 PM'',
         max_participants = 12,
         participants = [''michael@mergington.edu'', ''daniel@mergington.edu'']\<rparr>),
     (''Programming Class'',
        \<lparr>description = ''Learn programming fundamentals and build software projects'',
         schedule = ''Tuesdays and Thursdays, 3:30 PM - 4:30 PM'',
         max_participants = 20,
         participants = [''emma@mergington.edu'', ''sophia@mergington.edu'']\<rparr>),
     (''Gym Class'',
        \<lparr>description = ''Physical education and sports activities'',
         schedule = ''Mondays, Wednesdays, Fridays, 2:00 PM - 3:00 PM'',
         max_participants = 30,
         participants = [''john@mergington.edu'', ''olivia@mergington.edu'']\<rparr>),
     (''Basketball Team'',
        \<lparr>description = ''Competitive basketball training and matches'',
         schedule = ''Mondays and Wednesdays, 4:00 PM - 5:30 PM'',
         max_participants = 15,
         participants = [''james@mergington.edu'']\<rparr>),
     (''Tennis Club'',
        \<lparr>description = ''Tennis lessons and tournament preparation'',
         schedule = ''Tuesdays and Thursdays, 4:00 PM - 5:00 PM'',
         max_participants = 10,
         participants = [''alex@mergington.edu'']\<rparr>),
     (''Debate Team'',
        \<lparr>description = ''Develop critical thinking and public speaking skills'',
         schedule = ''Wednesdays, 3:30 PM - 5:00 PM'',
         max_participants = 16,
         participants = [''sarah@mergington.edu'', ''marcus@mergington.edu'']\<rparr>),
     (''Science Club'',
        \<lparr>description = ''Explore scientific experiments and research projects'',
         schedule = ''Fridays, 4:00 PM - 5:30 PM'',
         max_participants = 18,
         participants = [''lisa@mergington.edu'']\<rparr>),
     (''Art Studio'',
        \<lparr>description = ''Painting, drawing, and visual arts creation'',
         schedule = ''Mondays and Thursdays, 3:30 PM - 5:00 PM'',
         max_participants = 14,
         participants = [''nina@mergington.edu'', ''carlos@mergington.edu'']\<rparr>),
     (''Music Band'',
        \<lparr>description = ''Learn instruments and perform in concerts'',
         schedule = ''Tuesdays and Fridays, 3:30 PM - 4:30 PM'',
         max_participants = 25,
         participants = [''david@mergington.edu'']\<rparr>)]"

text \<open>
  \<^verbatim>\<open>raise HTTPException(status_code=..., detail=...)\<close> is the only way a handler fails.
  A handler takes the registry and returns what the caller gets (\<open>Inl\<close> the exception,
  \<open>Inr\<close> the returned value) together with the registry after the call. The handlers
  raise before they mutate anything, so the registry beside an \<open>Inl\<close> is the one read.
\<close>

datatype error = HTTPException (status_code: int) (detail: string)

type_synonym message = "(string \<times> string) list"

text \<open>\<^verbatim>\<open>get_activities\<close> (lines 87 to 89) returns the dictionary itself.\<close>

definition get_activities :: "registry \<Rightarrow> (error + registry) \<times> registry" where
  "get_activities acts = (Inr acts, acts)"

text \<open>
  \<^verbatim>\<open>signup_for_activity\<close> (lines 92 to 111). \<^verbatim>\<open>activity["participants"].append(email)\<close>
  mutates the list held by the entry of \<^verbatim>\<open>activity_name\<close>; the key is present there, so
  \<open>AList.update\<close> replaces that entry in place. The returned dictionary
  \<^verbatim>\<open>{"message": f"Signed up {email} for {activity_name}"}\<close> is a one-entry list.
\<close>

definition signup_for_activity ::
  "registry \<Rightarrow> string \<Rightarrow> string \<Rightarrow> (error + message) \<times> registry" where
  "signup_for_activity acts activity_name email =
     (case map_of acts activity_name of
        None \<Rightarrow> (Inl (HTTPException 404 ''Activity not found''), acts)
      | Some activity \<Rightarrow>
          if email \<in> set (participants activity)
          then (Inl (HTTPException 400 ''Student already signed up for this activity''), acts)
          else if int (length (participants activity)) \<ge> max_participants activity
          then (Inl (HTTPException 400 ''This activity is full''), acts)
          else (Inr [(''message'', ''Signed up '' @ email @ '' for '' @ activity_name)],
                AList.update activity_name
                  (activity\<lparr>participants := participants activity @ [email]\<rparr>) acts))"

text \<open>
  \<^verbatim>\<open>unregister_from_activity\<close> (lines 114 to 126). Python's \<^verbatim>\<open>list.remove(x)\<close> deletes
  the first element equal to \<^verbatim>\<open>x\<close>, which is \<open>remove1\<close>; it is called only after the
  membership test, so it never raises.
\<close>

definition unregister_from_activity ::
  "registry \<Rightarrow> string \<Rightarrow> string \<Rightarrow> (error + message) \<times> registry" where
  "unregister_from_activity acts activity_name email =
     (case map_of acts activity_name of
        None \<Rightarrow> (Inl (HTTPException 404 ''Activity not found''), acts)
      | Some activity \<Rightarrow>
          if email \<notin> set (participants activity)
          then (Inl (HTTPException 404 ''Student not found in activity''), acts)
          else (Inr [(''message'', ''Removed '' @ email @ '' from '' @ activity_name)],
                AList.update activity_name
                  (activity\<lparr>participants := remove1 email (participants activity)\<rparr>) acts))"

text \<open>
  The application serves requests one after another on the global dictionary. A request
  is one of the three routes with its parameters; \<open>handle\<close> is the registry after the
  request, \<open>run\<close> the registry after a sequence of them. The registries the program can
  be in are \<open>run activities reqs\<close>.
\<close>

datatype request =
    GetActivities
  | Signup string string
  | Unregister string string

fun handle :: "registry \<Rightarrow> request \<Rightarrow> registry" where
  "handle acts GetActivities = snd (get_activities acts)"
| "handle acts (Signup activity_name email) = snd (signup_for_activity acts activity_name email)"
| "handle acts (Unregister activity_name email) =
     snd (unregister_from_activity acts activity_name email)"

definition run :: "registry \<Rightarrow> request list \<Rightarrow> registry" where
  "run acts reqs = foldl handle acts reqs"

text \<open>
  The invariant of the data model: in every entry the participants are pairwise distinct
  and no more than \<^verbatim>\<open>max_participants\<close>.
\<close>

definition activity_ok :: "activity \<Rightarrow> bool" where
  "activity_ok a \<longleftrightarrow>
     distinct (participants a) \<and> int (length (participants a)) \<le> max_participants a"

definition registry_inv :: "registry \<Rightarrow> bool" where
  "registry_inv acts \<longleftrightarrow> list_all (\<lambda>(name, a). activity_ok a) acts"

text \<open>
  The loop of \<^verbatim>\<open>test_signup_activity_full\<close>: one signup after the other for the same
  activity, with each response kept.
\<close>

fun signup_all :: "registry \<Rightarrow> string \<Rightarrow> string list \<Rightarrow> (error + message) list \<times> registry" where
  "signup_all acts activity_name [] = ([], acts)"
| "signup_all acts activity_name (email # emails) =
     (case signup_for_activity acts activity_name email of
        (r, acts') \<Rightarrow>
          (case signup_all acts' activity_name emails of
             (rs, acts'') \<Rightarrow> (r # rs, acts'')))"

section \<open>Auxiliary facts\<close>

lemma map_of_update_same:
  "map_of (AList.update k v al) k = Some v"
  by (simp add: update_conv')

lemma map_of_update_other:
  "k' \<noteq> k \<Longrightarrow> map_of (AList.update k v al) k' = map_of al k'"
  by (simp add: update_conv')

lemma keys_update_present:
  "map_of al k = Some w \<Longrightarrow> map fst (AList.update k v al) = map fst al"
  by (induction al) (auto split: if_splits)

lemma list_all_update:
  "list_all P al \<Longrightarrow> P (k, v) \<Longrightarrow> list_all P (AList.update k v al)"
  by (induction al) auto

lemma set_remove1_readd:
  "e \<in> set xs \<Longrightarrow> insert e (set (remove1 e xs)) = set xs"
  by (induction xs) auto

lemma remove1_first_occurrence:
  assumes "e \<in> set xs"
  shows "\<exists>ys zs. xs = ys @ e # zs \<and> e \<notin> set ys \<and> remove1 e xs = ys @ zs"
proof -
  from assms obtain ys zs where "xs = ys @ e # zs" and "e \<notin> set ys"
    by (auto dest: split_list_first)
  then have "remove1 e xs = ys @ zs" by (simp add: remove1_append)
  with \<open>xs = ys @ e # zs\<close> \<open>e \<notin> set ys\<close> show ?thesis by blast
qed

lemma registry_inv_lookup:
  "registry_inv acts \<Longrightarrow> map_of acts n = Some a \<Longrightarrow> activity_ok a"
  by (auto simp: registry_inv_def list_all_iff dest: map_of_SomeD)

lemma registry_inv_update:
  "registry_inv acts \<Longrightarrow> activity_ok a \<Longrightarrow> registry_inv (AList.update n a acts)"
  by (simp add: registry_inv_def list_all_update)

lemma seed_inv: "registry_inv activities"
  by (simp add: registry_inv_def activities_def activity_ok_def)

lemma signup_inv:
  assumes "registry_inv acts"
  shows "registry_inv (snd (signup_for_activity acts n e))"
proof (cases "map_of acts n")
  case None
  with assms show ?thesis by (simp add: signup_for_activity_def)
next
  case (Some a)
  then have ok: "activity_ok a" using assms by (rule registry_inv_lookup [rotated])
  show ?thesis
  proof (cases "e \<in> set (participants a) \<or> max_participants a \<le> int (length (participants a))")
    case True
    with Some assms show ?thesis by (auto simp: signup_for_activity_def)
  next
    case False
    with ok have "activity_ok (a\<lparr>participants := participants a @ [e]\<rparr>)"
      by (simp add: activity_ok_def)
    with assms have "registry_inv (AList.update n (a\<lparr>participants := participants a @ [e]\<rparr>) acts)"
      by (rule registry_inv_update)
    with Some False show ?thesis by (simp add: signup_for_activity_def)
  qed
qed

lemma unregister_inv:
  assumes "registry_inv acts"
  shows "registry_inv (snd (unregister_from_activity acts n e))"
proof (cases "map_of acts n")
  case None
  with assms show ?thesis by (simp add: unregister_from_activity_def)
next
  case (Some a)
  then have ok: "activity_ok a" using assms by (rule registry_inv_lookup [rotated])
  show ?thesis
  proof (cases "e \<in> set (participants a)")
    case False
    with Some assms show ?thesis by (simp add: unregister_from_activity_def)
  next
    case True
    have "length (remove1 e (participants a)) \<le> length (participants a)"
      by (simp add: length_remove1)
    with ok have "activity_ok (a\<lparr>participants := remove1 e (participants a)\<rparr>)"
      by (simp add: activity_ok_def)
    with assms have "registry_inv (AList.update n (a\<lparr>participants := remove1 e (participants a)\<rparr>) acts)"
      by (rule registry_inv_update)
    with Some True show ?thesis by (simp add: unregister_from_activity_def)
  qed
qed

lemma handle_inv: "registry_inv acts \<Longrightarrow> registry_inv (handle acts r)"
  by (cases r) (simp_all add: get_activities_def signup_inv unregister_inv)

lemma run_inv: "registry_inv acts \<Longrightarrow> registry_inv (run acts reqs)"
  unfolding run_def by (induction reqs arbitrary: acts) (simp_all add: handle_inv)

lemma unregister_success:
  assumes "map_of acts n = Some a" and "e \<in> set (participants a)"
  shows "unregister_from_activity acts n e =
           (Inr [(''message'', ''Removed '' @ e @ '' from '' @ n)],
            AList.update n (a\<lparr>participants := remove1 e (participants a)\<rparr>) acts)"
  using assms by (simp add: unregister_from_activity_def)

lemma signup_success:
  assumes "map_of acts n = Some a" and "e \<notin> set (participants a)"
    and "int (length (participants a)) < max_participants a"
  shows "signup_for_activity acts n e =
           (Inr [(''message'', ''Signed up '' @ e @ '' for '' @ n)],
            AList.update n (a\<lparr>participants := participants a @ [e]\<rparr>) acts)"
  using assms by (simp add: signup_for_activity_def)

lemma signup_InrD:
  assumes "signup_for_activity acts n e = (Inr msg, acts')"
  obtains a where "map_of acts n = Some a" and "e \<notin> set (participants a)"
    and "int (length (participants a)) < max_participants a"
    and "acts' = AList.update n (a\<lparr>participants := participants a @ [e]\<rparr>) acts"
  using assms by (auto simp: signup_for_activity_def split: option.splits if_splits)

lemma unregister_InrD:
  assumes "unregister_from_activity acts n e = (Inr msg, acts')"
  obtains a where "map_of acts n = Some a" and "e \<in> set (participants a)"
    and "acts' = AList.update n (a\<lparr>participants := remove1 e (participants a)\<rparr>) acts"
  using assms by (auto simp: unregister_from_activity_def split: option.splits if_splits)

lemma signup_keys: "map fst (snd (signup_for_activity acts n e)) = map fst acts"
  by (simp add: signup_for_activity_def keys_update_present split: option.splits)

lemma unregister_keys: "map fst (snd (unregister_from_activity acts n e)) = map fst acts"
  by (simp add: unregister_from_activity_def keys_update_present split: option.splits)

lemma handle_keys: "map fst (handle acts r) = map fst acts"
  by (cases r) (simp_all add: get_activities_def signup_keys unregister_keys)

lemma run_keys: "map fst (run acts reqs) = map fst acts"
  unfolding run_def by (induction reqs arbitrary: acts) (simp_all add: handle_keys)

lemma signup_all_fresh:
  assumes "map_of acts n = Some a"
    and "distinct es"
    and "set es \<inter> set (participants a) = {}"
    and "int (length (participants a)) + int (length es) \<le> max_participants a"
  shows "\<exists>acts'. signup_all acts n es =
            (map (\<lambda>e. Inr [(''message'', ''Signed up '' @ e @ '' for '' @ n)]) es, acts')
          \<and> map_of acts' n = Some (a\<lparr>participants := participants a @ es\<rparr>)"
  using assms
proof (induction es arbitrary: acts a)
  case Nil
  then show ?case by simp
next
  case (Cons e es)
  let ?a1 = "a\<lparr>participants := participants a @ [e]\<rparr>"
  let ?s1 = "AList.update n ?a1 acts"
  from Cons.prems have fresh: "e \<notin> set (participants a)"
    and room: "int (length (participants a)) < max_participants a"
    by auto
  have step: "signup_for_activity acts n e =
                (Inr [(''message'', ''Signed up '' @ e @ '' for '' @ n)], ?s1)"
    using Cons.prems(1) fresh room by (rule signup_success)
  have look1: "map_of ?s1 n = Some ?a1" by (rule map_of_update_same)
  have d: "distinct es" using Cons.prems(2) by simp
  have disj: "set es \<inter> set (participants ?a1) = {}" using Cons.prems(2,3) by auto
  have len: "int (length (participants ?a1)) + int (length es) \<le> max_participants ?a1"
    using Cons.prems(4) by simp
  from Cons.IH [OF look1 d disj len] obtain acts' where
    rest: "signup_all ?s1 n es =
             (map (\<lambda>e. Inr [(''message'', ''Signed up '' @ e @ '' for '' @ n)]) es, acts')"
    and look': "map_of acts' n = Some (?a1\<lparr>participants := participants ?a1 @ es\<rparr>)"
    by blast
  from step rest have "signup_all acts n (e # es) =
      (map (\<lambda>e. Inr [(''message'', ''Signed up '' @ e @ '' for '' @ n)]) (e # es), acts')"
    by simp
  moreover from look' have "map_of acts' n = Some (a\<lparr>participants := participants a @ e # es\<rparr>)"
    by simp
  ultimately show ?case by blast
qed

lemma signup_all_snoc:
  "signup_all acts n (es @ [e]) =
     (case signup_all acts n es of
        (rs, s) \<Rightarrow> (case signup_for_activity s n e of (r, s') \<Rightarrow> (rs @ [r], s')))"
  by (induction es arbitrary: acts) (simp_all split: prod.splits)

lemma seed_tennis:
  "map_of activities ''Tennis Club'' =
     Some \<lparr>description = ''Tennis lessons and tournament preparation'',
           schedule = ''Tuesdays and Thursdays, 4:00 PM - 5:00 PM'',
           max_participants = 10,
           participants = [''alex@mergington.edu'']\<rparr>"
  by (simp add: activities_def)

lemma seed_chess:
  "map_of activities ''Chess Club'' =
     Some \<lparr>description = ''Learn strategies and compete in chess tournaments'',
           schedule = ''Fridays, 3:30 PM - 5:00 PM'',
           max_participants = 12,
           participants = [''michael@mergington.edu'', ''daniel@mergington.edu'']\<rparr>"
  by (simp add: activities_def)

lemma seed_unknown: "map_of activities ''Knitting Circle'' = None"
  by (simp add: activities_def)

section \<open>Order of the checks in signup\<close>

text \<open>
  C1. For every activity name and email, signup checks in this order: an unknown
  activity name gives 404 \<^verbatim>\<open>Activity not found\<close>; otherwise an email already among the
  participants gives 400 \<^verbatim>\<open>Student already signed up for this activity\<close>, whatever the
  capacity; otherwise a roster with \<^verbatim>\<open>max_participants\<close> entries or more gives 400
  \<^verbatim>\<open>This activity is full\<close>; only otherwise does the call succeed.
\<close>

theorem signup_validation_order:
  "(map_of acts activity_name = None \<longrightarrow>
      signup_for_activity acts activity_name email =
        (Inl (HTTPException 404 ''Activity not found''), acts))
   \<and> (map_of acts activity_name = Some a \<and> email \<in> set (participants a) \<longrightarrow>
      signup_for_activity acts activity_name email =
        (Inl (HTTPException 400 ''Student already signed up for this activity''), acts))
   \<and> (map_of acts activity_name = Some a \<and> email \<notin> set (participants a)
        \<and> max_participants a \<le> int (length (participants a)) \<longrightarrow>
      signup_for_activity acts activity_name email =
        (Inl (HTTPException 400 ''This activity is full''), acts))
   \<and> (map_of acts activity_name = Some a \<and> email \<notin> set (participants a)
        \<and> int (length (participants a)) < max_participants a \<longrightarrow>
      (\<exists>msg acts'. signup_for_activity acts activity_name email = (Inr msg, acts')))"
  by (simp add: signup_for_activity_def)

text \<open>
  The four cases at concrete inputs: an unknown name in the seed registry; a full
  two-seat activity asked for an email it already holds (the duplicate check wins over
  the capacity check) and for a fresh one; a fresh email for Tennis Club in the seed
  registry.
\<close>

theorem signup_validation_order_witness:
  "signup_for_activity activities ''Knitting Circle'' ''michael@mergington.edu''
     = (Inl (HTTPException 404 ''Activity not found''), activities)
   \<and> signup_for_activity
        [(''Duo'', \<lparr>description = ''d'', schedule = ''s'', max_participants = 2,
                    participants = [''a@x.edu'', ''b@x.edu'']\<rparr>)] ''Duo'' ''a@x.edu''
     = (Inl (HTTPException 400 ''Student already signed up for this activity''),
        [(''Duo'', \<lparr>description = ''d'', schedule = ''s'', max_participants = 2,
                    participants = [''a@x.edu'', ''b@x.edu'']\<rparr>)])
   \<and> signup_for_activity
        [(''Duo'', \<lparr>description = ''d'', schedule = ''s'', max_participants = 2,
                    participants = [''a@x.edu'', ''b@x.edu'']\<rparr>)] ''Duo'' ''c@x.edu''
     = (Inl (HTTPException 400 ''This activity is full''),
        [(''Duo'', \<lparr>description = ''d'', schedule = ''s'', max_participants = 2,
                    participants = [''a@x.edu'', ''b@x.edu'']\<rparr>)])
   \<and> (\<exists>msg acts'. signup_for_activity activities ''Tennis Club'' ''new@mergington.edu''
                       = (Inr msg, acts'))"
proof -
  let ?duo = "\<lparr>description = ''d'', schedule = ''s'', max_participants = 2,
               participants = [''a@x.edu'', ''b@x.edu'']\<rparr>"
  let ?tennis = "\<lparr>description = ''Tennis lessons and tournament preparation'',
         schedule = ''Tuesdays and Thursdays, 4:00 PM - 5:00 PM'',
         max_participants = 10,
         participants = [''alex@mergington.edu'']\<rparr>"
  have 1: "map_of activities ''Knitting Circle'' = None"
    by (simp add: activities_def)
  have 2: "map_of [(''Duo'', ?duo)] ''Duo'' = Some ?duo" by simp
  have 3: "map_of activities ''Tennis Club'' = Some ?tennis"
    by (simp add: activities_def)
  note a = signup_validation_order [where acts = activities and activity_name = "''Knitting Circle''" and email = "''michael@mergington.edu''"]
  note b = signup_validation_order [where acts = "[(''Duo'', ?duo)]" and activity_name = "''Duo''" and a = ?duo and email = "''a@x.edu''"]
  note c = signup_validation_order [where acts = "[(''Duo'', ?duo)]" and activity_name = "''Duo''" and a = ?duo and email = "''c@x.edu''"]
  note d = signup_validation_order [where acts = activities and activity_name = "''Tennis Club''" and a = ?tennis and email = "''new@mergington.edu''"]
  from a 1 have A: "signup_for_activity activities ''Knitting Circle'' ''michael@mergington.edu''
     = (Inl (HTTPException 404 ''Activity not found''), activities)" by blast
  from b 2 have B: "signup_for_activity [(''Duo'', ?duo)] ''Duo'' ''a@x.edu''
     = (Inl (HTTPException 400 ''Student already signed up for this activity''), [(''Duo'', ?duo)])"
    by simp
  from c 2 have C: "signup_for_activity [(''Duo'', ?duo)] ''Duo'' ''c@x.edu''
     = (Inl (HTTPException 400 ''This activity is full''), [(''Duo'', ?duo)])"
    by simp
  from d 3 have D: "\<exists>msg acts'. signup_for_activity activities ''Tennis Club'' ''new@mergington.edu''
                       = (Inr msg, acts')" by simp
  from A B C D show ?thesis by blast
qed

section \<open>A successful signup appends the email\<close>

text \<open>
  C2. For a registered activity, an email that is not among its participants and a
  roster below \<^verbatim>\<open>max_participants\<close>, signup succeeds; the participants of the activity
  afterwards are the old sequence followed by the email, and the message returned
  contains both the activity name and the email (Python's \<^verbatim>\<open>in\<close> on strings is
  \<open>sublist\<close>).
\<close>

theorem signup_appends:
  assumes "map_of acts activity_name = Some a"
    and "email \<notin> set (participants a)"
    and "int (length (participants a)) < max_participants a"
  shows "\<exists>msg acts' a'.
           signup_for_activity acts activity_name email = (Inr [(''message'', msg)], acts')
           \<and> map_of acts' activity_name = Some a'
           \<and> participants a' = participants a @ [email]
           \<and> sublist activity_name msg \<and> sublist email msg"
proof -
  let ?msg = "''Signed up '' @ email @ '' for '' @ activity_name"
  let ?a' = "a\<lparr>participants := participants a @ [email]\<rparr>"
  have "signup_for_activity acts activity_name email =
          (Inr [(''message'', ?msg)], AList.update activity_name ?a' acts)"
    using assms by (simp add: signup_for_activity_def)
  moreover have "map_of (AList.update activity_name ?a' acts) activity_name = Some ?a'"
    by (rule map_of_update_same)
  moreover have "sublist activity_name ?msg"
    by (metis append_assoc sublist_append_leftI)
  moreover have "sublist email ?msg"
    by (rule sublist_appendI)
  ultimately show ?thesis by force
qed

text \<open>A fresh email for Tennis Club in the seed registry.\<close>

theorem signup_appends_witness:
  "\<exists>msg acts' a'.
      signup_for_activity activities ''Tennis Club'' ''new@mergington.edu''
        = (Inr [(''message'', msg)], acts')
      \<and> map_of acts' ''Tennis Club'' = Some a'
      \<and> participants a' = [''alex@mergington.edu'', ''new@mergington.edu'']
      \<and> sublist ''Tennis Club'' msg \<and> sublist ''new@mergington.edu'' msg"
  using signup_appends [OF seed_tennis, of "''new@mergington.edu''"] by simp

section \<open>The checks of unregister and what it removes\<close>

text \<open>
  C3. For every activity name and email, unregister gives 404 \<^verbatim>\<open>Activity not found\<close>
  for an unknown activity name; otherwise 404 \<^verbatim>\<open>Student not found in activity\<close> for
  an email that is not among the participants; otherwise it succeeds with a message and
  the participants afterwards are the old ones with the first occurrence of the email
  removed, and the email is no longer among them. The first two cases hold of any
  registry. The last one is stated twice: for a registry whose participant lists have no
  duplicates (\<open>registry_inv\<close>, the invariant of the data model), and for every registry
  the program reaches from the seed, where that invariant always holds.
\<close>

theorem unregister_checks_then_removes:
  "(map_of acts activity_name = None \<longrightarrow>
      unregister_from_activity acts activity_name email =
        (Inl (HTTPException 404 ''Activity not found''), acts))
   \<and> (map_of acts activity_name = Some a \<and> email \<notin> set (participants a) \<longrightarrow>
      unregister_from_activity acts activity_name email =
        (Inl (HTTPException 404 ''Student not found in activity''), acts))
   \<and> (registry_inv acts \<and> map_of acts activity_name = Some a
        \<and> email \<in> set (participants a) \<longrightarrow>
      (\<exists>msg acts' a'.
          unregister_from_activity acts activity_name email = (Inr [(''message'', msg)], acts')
          \<and> map_of acts' activity_name = Some a'
          \<and> participants a' = remove1 email (participants a)
          \<and> email \<notin> set (participants a')))
   \<and> (acts = run activities reqs \<and> map_of acts activity_name = Some a
        \<and> email \<in> set (participants a) \<longrightarrow>
      (\<exists>msg acts' a'.
          unregister_from_activity acts activity_name email = (Inr [(''message'', msg)], acts')
          \<and> map_of acts' activity_name = Some a'
          \<and> email \<notin> set (participants a')))"
proof -
  have removes: "\<exists>msg acts' a'.
          unregister_from_activity s activity_name email = (Inr [(''message'', msg)], acts')
          \<and> map_of acts' activity_name = Some a'
          \<and> participants a' = remove1 email (participants a)
          \<and> email \<notin> set (participants a')"
    if inv: "registry_inv s" and look: "map_of s activity_name = Some a"
      and mem: "email \<in> set (participants a)" for s
  proof -
    let ?a' = "a\<lparr>participants := remove1 email (participants a)\<rparr>"
    from inv look have "activity_ok a" by (rule registry_inv_lookup)
    then have "distinct (participants a)" by (simp add: activity_ok_def)
    then have "email \<notin> set (participants ?a')" by simp
    moreover have "map_of (AList.update activity_name ?a' s) activity_name = Some ?a'"
      by (rule map_of_update_same)
    moreover note unregister_success [OF look mem]
    ultimately show ?thesis by force
  qed
  have "registry_inv (run activities reqs)" by (rule run_inv [OF seed_inv])
  with removes [of "run activities reqs"] removes [of acts]
  show ?thesis by (auto simp: unregister_from_activity_def)
qed

text \<open>
  The cases in the seed registry: an unknown name, an email that is not in Chess Club,
  and two members of Chess Club.
\<close>

theorem unregister_checks_then_removes_witness:
  "unregister_from_activity activities ''Knitting Circle'' ''michael@mergington.edu''
     = (Inl (HTTPException 404 ''Activity not found''), activities)
   \<and> unregister_from_activity activities ''Chess Club'' ''nonexistent@mergington.edu''
     = (Inl (HTTPException 404 ''Student not found in activity''), activities)
   \<and> (\<exists>msg acts' a'.
        unregister_from_activity activities ''Chess Club'' ''michael@mergington.edu''
          = (Inr [(''message'', msg)], acts')
        \<and> map_of acts' ''Chess Club'' = Some a'
        \<and> participants a' = [''daniel@mergington.edu'']
        \<and> ''michael@mergington.edu'' \<notin> set (participants a'))
   \<and> (\<exists>msg acts' a'.
        unregister_from_activity (run activities []) ''Chess Club'' ''daniel@mergington.edu''
          = (Inr [(''message'', msg)], acts')
        \<and> map_of acts' ''Chess Club'' = Some a'
        \<and> ''daniel@mergington.edu'' \<notin> set (participants a'))"
proof -
  let ?chess = "\<lparr>description = ''Learn strategies and compete in chess tournaments'',
           schedule = ''Fridays, 3:30 PM - 5:00 PM'',
           max_participants = 12,
           participants = [''michael@mergington.edu'', ''daniel@mergington.edu'']\<rparr>"
  have r: "run activities [] = activities" by (simp add: run_def)
  note a = unregister_checks_then_removes [where acts = activities
      and activity_name = "''Knitting Circle''" and email = "''michael@mergington.edu''"]
  note b = unregister_checks_then_removes [where acts = activities
      and activity_name = "''Chess Club''" and a = ?chess and email = "''nonexistent@mergington.edu''"]
  note c = unregister_checks_then_removes [where acts = activities
      and activity_name = "''Chess Club''" and a = ?chess and email = "''michael@mergington.edu''"]
  note d = unregister_checks_then_removes [where acts = "run activities []" and reqs = "[]"
      and activity_name = "''Chess Club''" and a = ?chess and email = "''daniel@mergington.edu''"]
  from a seed_unknown
  have A: "unregister_from_activity activities ''Knitting Circle'' ''michael@mergington.edu''
     = (Inl (HTTPException 404 ''Activity not found''), activities)" by blast
  from b seed_chess
  have B: "unregister_from_activity activities ''Chess Club'' ''nonexistent@mergington.edu''
     = (Inl (HTTPException 404 ''Student not found in activity''), activities)" by simp
  from c seed_chess seed_inv
  have C: "\<exists>msg acts' a'.
        unregister_from_activity activities ''Chess Club'' ''michael@mergington.edu''
          = (Inr [(''message'', msg)], acts')
        \<and> map_of acts' ''Chess Club'' = Some a'
        \<and> participants a' = [''daniel@mergington.edu'']
        \<and> ''michael@mergington.edu'' \<notin> set (participants a')" by simp
  from d seed_chess r
  have D: "\<exists>msg acts' a'.
        unregister_from_activity (run activities []) ''Chess Club'' ''daniel@mergington.edu''
          = (Inr [(''message'', msg)], acts')
        \<and> map_of acts' ''Chess Club'' = Some a'
        \<and> ''daniel@mergington.edu'' \<notin> set (participants a')" by simp
  from A B C D show ?thesis by blast
qed

section \<open>The invariant of the registry\<close>

text \<open>
  C4. The invariant (in every activity of the registry the participants are pairwise
  distinct and at most \<^verbatim>\<open>max_participants\<close>) holds of the seed registry and is preserved
  by each of the three handlers, whether the call succeeds or fails; hence it holds of
  every activity of every registry reached from the seed by any sequence of requests.
\<close>

theorem registry_invariant:
  "registry_inv activities
   \<and> (registry_inv acts \<longrightarrow>
        registry_inv (snd (get_activities acts))
        \<and> registry_inv (snd (signup_for_activity acts activity_name email))
        \<and> registry_inv (snd (unregister_from_activity acts activity_name email)))
   \<and> (\<forall>name a. map_of (run activities reqs) name = Some a \<longrightarrow>
        distinct (participants a) \<and> int (length (participants a)) \<le> max_participants a)"
proof (intro conjI impI allI)
  show "registry_inv activities" by (rule seed_inv)
next
  assume "registry_inv acts"
  then show "registry_inv (snd (get_activities acts))" by (simp add: get_activities_def)
next
  assume "registry_inv acts"
  then show "registry_inv (snd (signup_for_activity acts activity_name email))"
    by (rule signup_inv)
next
  assume "registry_inv acts"
  then show "registry_inv (snd (unregister_from_activity acts activity_name email))"
    by (rule unregister_inv)
next
  fix name a assume "map_of (run activities reqs) name = Some a"
  with run_inv [OF seed_inv] have "activity_ok a" by (rule registry_inv_lookup)
  then show "distinct (participants a)" by (simp add: activity_ok_def)
next
  fix name a assume "map_of (run activities reqs) name = Some a"
  with run_inv [OF seed_inv] have "activity_ok a" by (rule registry_inv_lookup)
  then show "int (length (participants a)) \<le> max_participants a" by (simp add: activity_ok_def)
qed

text \<open>
  The seed registry, one call of each handler on it, and Tennis Club after one signup.
\<close>

theorem registry_invariant_witness:
  "registry_inv activities
   \<and> registry_inv (snd (get_activities activities))
   \<and> registry_inv (snd (signup_for_activity activities ''Tennis Club'' ''new@mergington.edu''))
   \<and> registry_inv (snd (unregister_from_activity activities ''Chess Club'' ''michael@mergington.edu''))
   \<and> map_of (run activities [Signup ''Tennis Club'' ''new@mergington.edu'']) ''Tennis Club''
       = Some \<lparr>description = ''Tennis lessons and tournament preparation'',
           schedule = ''Tuesdays and Thursdays, 4:00 PM - 5:00 PM'',
           max_participants = 10,
           participants = [''alex@mergington.edu'', ''new@mergington.edu'']\<rparr>
   \<and> distinct [''alex@mergington.edu'', ''new@mergington.edu'']
   \<and> int (length [''alex@mergington.edu'', ''new@mergington.edu'']) \<le> 10"
proof -
  let ?t = "\<lparr>description = ''Tennis lessons and tournament preparation'',
           schedule = ''Tuesdays and Thursdays, 4:00 PM - 5:00 PM'',
           max_participants = 10,
           participants = [''alex@mergington.edu'', ''new@mergington.edu'']\<rparr>"
  note inst = registry_invariant [where acts = activities
      and activity_name = "''Tennis Club''" and email = "''new@mergington.edu''"
      and reqs = "[Signup ''Tennis Club'' ''new@mergington.edu'']"]
  note inst2 = registry_invariant [where acts = activities
      and activity_name = "''Chess Club''" and email = "''michael@mergington.edu''"
      and reqs = "[]"]
  have look: "map_of (run activities [Signup ''Tennis Club'' ''new@mergington.edu'']) ''Tennis Club''
       = Some ?t"
    by (simp add: run_def signup_for_activity_def seed_tennis map_of_update_same)
  from inst have inv: "registry_inv activities" by blast
  from inst inv have g: "registry_inv (snd (get_activities activities))"
    and s: "registry_inv (snd (signup_for_activity activities ''Tennis Club'' ''new@mergington.edu''))"
    by blast+
  from inst2 inv
  have u: "registry_inv (snd (unregister_from_activity activities ''Chess Club'' ''michael@mergington.edu''))"
    by blast
  from inst look have "distinct (participants ?t) \<and> int (length (participants ?t)) \<le> max_participants ?t"
    by blast
  with inv g s u look show ?thesis by simp
qed

section \<open>The capacity check is an exact boundary\<close>

text \<open>
  C5. For a registered activity and an email that is not among its participants, signup
  succeeds whenever the roster is shorter than \<^verbatim>\<open>max_participants\<close>, and the roster is one
  longer afterwards, so it can reach \<^verbatim>\<open>max_participants\<close> exactly; signup fails with 400
  \<^verbatim>\<open>This activity is full\<close> exactly when the roster has \<^verbatim>\<open>max_participants\<close> entries or
  more. From the seed registry, where Tennis Club has the one participant
  \<^verbatim>\<open>alex@mergington.edu\<close> and \<^verbatim>\<open>max_participants\<close> 10: for any ten distinct new emails,
  the signups of the first nine succeed and the tenth fails with \<^verbatim>\<open>This activity is full\<close>.
\<close>

theorem capacity_boundary:
  "(map_of acts activity_name = Some a \<and> email \<notin> set (participants a) \<longrightarrow>
      (int (length (participants a)) < max_participants a \<longrightarrow>
         (\<exists>msg acts' a'.
             signup_for_activity acts activity_name email = (Inr msg, acts')
             \<and> map_of acts' activity_name = Some a'
             \<and> length (participants a') = length (participants a) + 1
             \<and> int (length (participants a')) \<le> max_participants a'))
      \<and> (fst (signup_for_activity acts activity_name email)
            = Inl (HTTPException 400 ''This activity is full'')
          \<longleftrightarrow> max_participants a \<le> int (length (participants a))))
   \<and> (length es = 9 \<and> distinct (es @ [e10]) \<and> ''alex@mergington.edu'' \<notin> set (es @ [e10]) \<longrightarrow>
      (\<exists>acts'.
          signup_all activities ''Tennis Club'' (es @ [e10]) =
            (map (\<lambda>e. Inr [(''message'', ''Signed up '' @ e @ '' for Tennis Club'')]) es
               @ [Inl (HTTPException 400 ''This activity is full'')],
             acts')
          \<and> map_option participants (map_of acts' ''Tennis Club'')
              = Some (''alex@mergington.edu'' # es)))"
proof (intro conjI impI)
  assume h: "map_of acts activity_name = Some a \<and> email \<notin> set (participants a)"
  assume room: "int (length (participants a)) < max_participants a"
  let ?a' = "a\<lparr>participants := participants a @ [email]\<rparr>"
  from h room have "signup_for_activity acts activity_name email =
      (Inr [(''message'', ''Signed up '' @ email @ '' for '' @ activity_name)],
       AList.update activity_name ?a' acts)"
    by (simp add: signup_success)
  moreover have "map_of (AList.update activity_name ?a' acts) activity_name = Some ?a'"
    by (rule map_of_update_same)
  moreover have "length (participants ?a') = length (participants a) + 1" by simp
  moreover from room have "int (length (participants ?a')) \<le> max_participants ?a'" by simp
  ultimately show "\<exists>msg acts' a'.
             signup_for_activity acts activity_name email = (Inr msg, acts')
             \<and> map_of acts' activity_name = Some a'
             \<and> length (participants a') = length (participants a) + 1
             \<and> int (length (participants a')) \<le> max_participants a'"
    by blast
next
  assume h: "map_of acts activity_name = Some a \<and> email \<notin> set (participants a)"
  then show "fst (signup_for_activity acts activity_name email)
            = Inl (HTTPException 400 ''This activity is full'')
          \<longleftrightarrow> max_participants a \<le> int (length (participants a))"
    by (simp add: signup_for_activity_def)
next
  assume h: "length es = 9 \<and> distinct (es @ [e10]) \<and> ''alex@mergington.edu'' \<notin> set (es @ [e10])"
  let ?tennis = "\<lparr>description = ''Tennis lessons and tournament preparation'',
           schedule = ''Tuesdays and Thursdays, 4:00 PM - 5:00 PM'',
           max_participants = 10,
           participants = [''alex@mergington.edu'']\<rparr>"
  let ?full = "?tennis\<lparr>participants := participants ?tennis @ es\<rparr>"
  let ?ok = "\<lambda>e. Inr [(''message'', ''Signed up '' @ e @ '' for '' @ ''Tennis Club'')]
               :: error + message"
  from h have d: "distinct es" and disj: "set es \<inter> set (participants ?tennis) = {}"
    and len: "int (length (participants ?tennis)) + int (length es) \<le> max_participants ?tennis"
    by auto
  from signup_all_fresh [OF seed_tennis d disj len] obtain acts' where
    nine: "signup_all activities ''Tennis Club'' es = (map ?ok es, acts')"
    and look: "map_of acts' ''Tennis Club'' = Some ?full"
    by blast
  from h have "e10 \<notin> set (participants ?full)"
    and "max_participants ?full \<le> int (length (participants ?full))"
    by auto
  with look have tenth: "signup_for_activity acts' ''Tennis Club'' e10 =
      (Inl (HTTPException 400 ''This activity is full''), acts')"
    by (simp add: signup_for_activity_def)
  from nine tenth have "signup_all activities ''Tennis Club'' (es @ [e10]) =
      (map ?ok es @ [Inl (HTTPException 400 ''This activity is full'')], acts')"
    by (simp add: signup_all_snoc)
  moreover from look have "map_option participants (map_of acts' ''Tennis Club'')
              = Some (''alex@mergington.edu'' # es)"
    by simp
  ultimately show "\<exists>acts'.
          signup_all activities ''Tennis Club'' (es @ [e10]) =
            (map (\<lambda>e. Inr [(''message'', ''Signed up '' @ e @ '' for Tennis Club'')]) es
               @ [Inl (HTTPException 400 ''This activity is full'')],
             acts')
          \<and> map_option participants (map_of acts' ''Tennis Club'')
              = Some (''alex@mergington.edu'' # es)"
    by simp
qed

text \<open>
  The emails of \<^verbatim>\<open>test_signup_activity_full\<close>: nine fillers and the overflow; and the
  boundary at single calls.
\<close>

theorem capacity_boundary_witness:
  "(\<exists>msg acts' a'.
      signup_for_activity activities ''Tennis Club'' ''filler0@mergington.edu'' = (Inr msg, acts')
      \<and> map_of acts' ''Tennis Club'' = Some a'
      \<and> length (participants a') = 2
      \<and> int (length (participants a')) \<le> max_participants a')
   \<and> fst (signup_for_activity
        [(''Solo'', \<lparr>description = ''d'', schedule = ''s'', max_participants = 1,
                     participants = [''a@x.edu'']\<rparr>)] ''Solo'' ''b@x.edu'')
       = Inl (HTTPException 400 ''This activity is full'')
   \<and> (\<exists>acts'.
        signup_all activities ''Tennis Club''
          ([''filler0@mergington.edu'', ''filler1@mergington.edu'', ''filler2@mergington.edu'',
            ''filler3@mergington.edu'', ''filler4@mergington.edu'', ''filler5@mergington.edu'',
            ''filler6@mergington.edu'', ''filler7@mergington.edu'', ''filler8@mergington.edu'']
           @ [''overflow@mergington.edu''])
        = (map (\<lambda>e. Inr [(''message'', ''Signed up '' @ e @ '' for Tennis Club'')])
             [''filler0@mergington.edu'', ''filler1@mergington.edu'', ''filler2@mergington.edu'',
              ''filler3@mergington.edu'', ''filler4@mergington.edu'', ''filler5@mergington.edu'',
              ''filler6@mergington.edu'', ''filler7@mergington.edu'', ''filler8@mergington.edu'']
             @ [Inl (HTTPException 400 ''This activity is full'')],
           acts')
        \<and> map_option participants (map_of acts' ''Tennis Club'')
            = Some [''alex@mergington.edu'',
                ''filler0@mergington.edu'', ''filler1@mergington.edu'', ''filler2@mergington.edu'',
                ''filler3@mergington.edu'', ''filler4@mergington.edu'', ''filler5@mergington.edu'',
                ''filler6@mergington.edu'', ''filler7@mergington.edu'', ''filler8@mergington.edu''])"
proof -
  let ?tennis = "\<lparr>description = ''Tennis lessons and tournament preparation'',
           schedule = ''Tuesdays and Thursdays, 4:00 PM - 5:00 PM'',
           max_participants = 10,
           participants = [''alex@mergington.edu'']\<rparr>"
  let ?solo = "\<lparr>description = ''d'', schedule = ''s'', max_participants = 1,
                 participants = [''a@x.edu'']\<rparr>"
  let ?es = "[''filler0@mergington.edu'', ''filler1@mergington.edu'', ''filler2@mergington.edu'',
            ''filler3@mergington.edu'', ''filler4@mergington.edu'', ''filler5@mergington.edu'',
            ''filler6@mergington.edu'', ''filler7@mergington.edu'', ''filler8@mergington.edu'']"
  note single = capacity_boundary [where acts = activities and activity_name = "''Tennis Club''"
      and a = ?tennis and email = "''filler0@mergington.edu''" and es = ?es
      and ?e10.0 = "''overflow@mergington.edu''"]
  note full = capacity_boundary [where acts = "[(''Solo'', ?solo)]" and activity_name = "''Solo''"
      and a = ?solo and email = "''b@x.edu''" and es = ?es
      and ?e10.0 = "''overflow@mergington.edu''"]
  have fresh1: "map_of activities ''Tennis Club'' = Some ?tennis
      \<and> ''filler0@mergington.edu'' \<notin> set (participants ?tennis)"
    by (simp add: seed_tennis)
  have room1: "int (length (participants ?tennis)) < max_participants ?tennis" by simp
  have fresh2: "map_of [(''Solo'', ?solo)] ''Solo'' = Some ?solo
      \<and> ''b@x.edu'' \<notin> set (participants ?solo)"
    by simp
  have full2: "max_participants ?solo \<le> int (length (participants ?solo))" by simp
  have ten: "length ?es = 9 \<and> distinct (?es @ [''overflow@mergington.edu''])
      \<and> ''alex@mergington.edu'' \<notin> set (?es @ [''overflow@mergington.edu''])"
    by simp
  have A: "\<exists>msg acts' a'.
      signup_for_activity activities ''Tennis Club'' ''filler0@mergington.edu'' = (Inr msg, acts')
      \<and> map_of acts' ''Tennis Club'' = Some a'
      \<and> length (participants a') = 2
      \<and> int (length (participants a')) \<le> max_participants a'"
    using single [THEN conjunct1, THEN mp, OF fresh1, THEN conjunct1, THEN mp, OF room1]
    by (simp add: numeral_2_eq_2)
  have B: "fst (signup_for_activity [(''Solo'', ?solo)] ''Solo'' ''b@x.edu'')
       = Inl (HTTPException 400 ''This activity is full'')"
    by (rule full [THEN conjunct1, THEN mp, OF fresh2, THEN conjunct2, THEN iffD2, OF full2])
  note C = single [THEN conjunct2, THEN mp, OF ten]
  show ?thesis by (intro conjI A B C)
qed

section \<open>A failing call leaves the registry as it was\<close>

text \<open>
  C6. Whenever signup or unregister fails, with whatever error, the registry after the
  call is the registry before the call.
\<close>

theorem failure_leaves_registry:
  "(fst (signup_for_activity acts activity_name email) = Inl err \<longrightarrow>
      snd (signup_for_activity acts activity_name email) = acts)
   \<and> (fst (unregister_from_activity acts activity_name email) = Inl err \<longrightarrow>
      snd (unregister_from_activity acts activity_name email) = acts)"
  by (auto simp: signup_for_activity_def unregister_from_activity_def
           split: option.splits if_splits)

text \<open>A duplicate signup and the removal of an absent email in the seed registry.\<close>

theorem failure_leaves_registry_witness:
  "fst (signup_for_activity activities ''Chess Club'' ''michael@mergington.edu'')
     = Inl (HTTPException 400 ''Student already signed up for this activity'')
   \<and> snd (signup_for_activity activities ''Chess Club'' ''michael@mergington.edu'') = activities
   \<and> fst (unregister_from_activity activities ''Chess Club'' ''nonexistent@mergington.edu'')
     = Inl (HTTPException 404 ''Student not found in activity'')
   \<and> snd (unregister_from_activity activities ''Chess Club'' ''nonexistent@mergington.edu'')
     = activities"
proof -
  have s: "fst (signup_for_activity activities ''Chess Club'' ''michael@mergington.edu'')
     = Inl (HTTPException 400 ''Student already signed up for this activity'')"
    by (simp add: signup_for_activity_def seed_chess)
  have u: "fst (unregister_from_activity activities ''Chess Club'' ''nonexistent@mergington.edu'')
     = Inl (HTTPException 404 ''Student not found in activity'')"
    by (simp add: unregister_from_activity_def seed_chess)
  from s failure_leaves_registry [where acts = activities and activity_name = "''Chess Club''"
      and email = "''michael@mergington.edu''"
      and err = "HTTPException 400 ''Student already signed up for this activity''"]
  have s': "snd (signup_for_activity activities ''Chess Club'' ''michael@mergington.edu'') = activities"
    by blast
  from u failure_leaves_registry [where acts = activities and activity_name = "''Chess Club''"
      and email = "''nonexistent@mergington.edu''"
      and err = "HTTPException 404 ''Student not found in activity''"]
  have u': "snd (unregister_from_activity activities ''Chess Club'' ''nonexistent@mergington.edu'')
     = activities"
    by blast
  from s s' u u' show ?thesis by blast
qed

section \<open>Unregister followed by signup restores the set of participants\<close>

text \<open>
  C7. In a registry that satisfies the invariant, for a registered activity and an email
  among its participants, unregister succeeds, the signup of the same email that follows
  succeeds, and the set of participants of the activity afterwards is the set before.
\<close>

theorem withdraw_reenroll_same_set:
  assumes "registry_inv acts"
    and "map_of acts activity_name = Some a"
    and "email \<in> set (participants a)"
  shows "\<exists>m1 s1 m2 s2 a2.
           unregister_from_activity acts activity_name email = (Inr m1, s1)
           \<and> signup_for_activity s1 activity_name email = (Inr m2, s2)
           \<and> map_of s2 activity_name = Some a2
           \<and> set (participants a2) = set (participants a)"
proof -
  let ?ps = "participants a"
  let ?a1 = "a\<lparr>participants := remove1 email ?ps\<rparr>"
  let ?s1 = "AList.update activity_name ?a1 acts"
  let ?a2 = "?a1\<lparr>participants := participants ?a1 @ [email]\<rparr>"
  let ?s2 = "AList.update activity_name ?a2 ?s1"
  from assms(1,2) have "activity_ok a" by (rule registry_inv_lookup)
  then have d: "distinct ?ps" and le: "int (length ?ps) \<le> max_participants a"
    by (simp_all add: activity_ok_def)
  have un: "unregister_from_activity acts activity_name email =
              (Inr [(''message'', ''Removed '' @ email @ '' from '' @ activity_name)], ?s1)"
    using assms(2,3) by (rule unregister_success)
  have look1: "map_of ?s1 activity_name = Some ?a1" by (rule map_of_update_same)
  have fresh: "email \<notin> set (participants ?a1)" using d by simp
  have pos: "0 < length ?ps" using assms(3) by (cases ?ps) auto
  have len: "length (remove1 email ?ps) = length ?ps - 1"
    using assms(3) by (simp add: length_remove1)
  from pos le have "int (length ?ps - 1) < max_participants a" by arith
  with len have room: "int (length (participants ?a1)) < max_participants ?a1" by simp
  have su: "signup_for_activity ?s1 activity_name email =
              (Inr [(''message'', ''Signed up '' @ email @ '' for '' @ activity_name)], ?s2)"
    using look1 fresh room by (rule signup_success)
  have look2: "map_of ?s2 activity_name = Some ?a2" by (rule map_of_update_same)
  have "set (participants ?a2) = set ?ps" using assms(3) by (simp add: set_remove1_readd)
  with un su look2 show ?thesis by blast
qed

text \<open>The first member of Chess Club in the seed registry.\<close>

theorem withdraw_reenroll_same_set_witness:
  "\<exists>m1 s1 m2 s2 a2.
      unregister_from_activity activities ''Chess Club'' ''michael@mergington.edu'' = (Inr m1, s1)
      \<and> signup_for_activity s1 ''Chess Club'' ''michael@mergington.edu'' = (Inr m2, s2)
      \<and> map_of s2 ''Chess Club'' = Some a2
      \<and> set (participants a2) = {''michael@mergington.edu'', ''daniel@mergington.edu''}"
  using withdraw_reenroll_same_set [OF seed_inv seed_chess, of "''michael@mergington.edu''"]
  by simp

section \<open>Listing the activities\<close>

text \<open>
  C8. For every registry, \<^verbatim>\<open>get_activities\<close> succeeds and returns the whole registry (every
  activity name with its current record), the registry after the call is the registry
  before it, and a second call right after the first returns the same result.
\<close>

theorem get_activities_pure:
  "get_activities acts = (Inr acts, acts)
   \<and> snd (get_activities acts) = acts
   \<and> fst (get_activities (snd (get_activities acts))) = fst (get_activities acts)"
  by (simp add: get_activities_def)

section \<open>What signup and unregister leave unchanged\<close>

text \<open>
  C9. Every handler, and so every sequence of requests, leaves the activity names as they
  were (the same names in the same order). A successful signup or unregister for an
  activity leaves the description, the schedule and \<^verbatim>\<open>max_participants\<close> of that activity
  unchanged, and the record of every other activity unchanged.
\<close>

theorem handlers_frame:
  "map fst (snd (get_activities acts)) = map fst acts
   \<and> map fst (snd (signup_for_activity acts activity_name email)) = map fst acts
   \<and> map fst (snd (unregister_from_activity acts activity_name email)) = map fst acts
   \<and> map fst (run acts reqs) = map fst acts
   \<and> (signup_for_activity acts activity_name email = (Inr msg, acts')
        \<or> unregister_from_activity acts activity_name email = (Inr msg, acts') \<longrightarrow>
       (\<exists>a a'. map_of acts activity_name = Some a \<and> map_of acts' activity_name = Some a'
          \<and> description a' = description a \<and> schedule a' = schedule a
          \<and> max_participants a' = max_participants a)
       \<and> (\<forall>other. other \<noteq> activity_name \<longrightarrow> map_of acts' other = map_of acts other))"
proof -
  let ?same = "(\<exists>a a'. map_of acts activity_name = Some a \<and> map_of acts' activity_name = Some a'
          \<and> description a' = description a \<and> schedule a' = schedule a
          \<and> max_participants a' = max_participants a)
       \<and> (\<forall>other. other \<noteq> activity_name \<longrightarrow> map_of acts' other = map_of acts other)"
  have frame: ?same
    if "map_of acts activity_name = Some a"
      and "acts' = AList.update activity_name (a\<lparr>participants := ps\<rparr>) acts" for a ps
    using that by (simp add: map_of_update_same map_of_update_other)
  have su: ?same if h: "signup_for_activity acts activity_name email = (Inr msg, acts')"
  proof -
    from h obtain a where "map_of acts activity_name = Some a"
      and "acts' = AList.update activity_name (a\<lparr>participants := participants a @ [email]\<rparr>) acts"
      by (rule signup_InrD)
    then show ?thesis by (rule frame)
  qed
  have un: ?same if h: "unregister_from_activity acts activity_name email = (Inr msg, acts')"
  proof -
    from h obtain a where "map_of acts activity_name = Some a"
      and "acts' = AList.update activity_name
             (a\<lparr>participants := remove1 email (participants a)\<rparr>) acts"
      by (rule unregister_InrD)
    then show ?thesis by (rule frame)
  qed
  have both: "signup_for_activity acts activity_name email = (Inr msg, acts')
        \<or> unregister_from_activity acts activity_name email = (Inr msg, acts') \<longrightarrow> ?same"
    using su un by (rule_tac impI) (erule disjE)
  have g: "map fst (snd (get_activities acts)) = map fst acts"
    by (simp add: get_activities_def)
  show ?thesis
    by (intro conjI g signup_keys unregister_keys run_keys both)
qed

text \<open>
  A signup and an unregister that succeed in the seed registry: the names stay, Chess
  Club keeps its other fields, and Gym Class keeps its record.
\<close>

theorem handlers_frame_witness:
  "map fst (snd (signup_for_activity activities ''Chess Club'' ''new@mergington.edu''))
     = map fst activities
   \<and> map fst (snd (unregister_from_activity activities ''Chess Club'' ''michael@mergington.edu''))
     = map fst activities
   \<and> (\<exists>a a'. map_of activities ''Chess Club'' = Some a
        \<and> map_of (snd (signup_for_activity activities ''Chess Club'' ''new@mergington.edu''))
             ''Chess Club'' = Some a'
        \<and> description a' = description a \<and> schedule a' = schedule a
        \<and> max_participants a' = max_participants a)
   \<and> map_of (snd (signup_for_activity activities ''Chess Club'' ''new@mergington.edu''))
        ''Gym Class'' = map_of activities ''Gym Class''
   \<and> (\<exists>a a'. map_of activities ''Chess Club'' = Some a
        \<and> map_of (snd (unregister_from_activity activities ''Chess Club''
                         ''michael@mergington.edu'')) ''Chess Club'' = Some a'
        \<and> description a' = description a \<and> schedule a' = schedule a
        \<and> max_participants a' = max_participants a)
   \<and> map_of (snd (unregister_from_activity activities ''Chess Club'' ''michael@mergington.edu''))
        ''Gym Class'' = map_of activities ''Gym Class''"
proof -
  let ?su = "signup_for_activity activities ''Chess Club'' ''new@mergington.edu''"
  let ?un = "unregister_from_activity activities ''Chess Club'' ''michael@mergington.edu''"
  have su: "?su = (Inr [(''message'', ''Signed up new@mergington.edu for Chess Club'')], snd ?su)"
    using signup_success [OF seed_chess, of "''new@mergington.edu''"] by simp
  have un: "?un = (Inr [(''message'', ''Removed michael@mergington.edu from Chess Club'')], snd ?un)"
    using unregister_success [OF seed_chess, of "''michael@mergington.edu''"] by simp
  have other: "''Gym Class'' \<noteq> ''Chess Club''" by simp
  note s = handlers_frame [where acts = activities and activity_name = "''Chess Club''"
      and email = "''new@mergington.edu''" and reqs = "[]"
      and msg = "[(''message'', ''Signed up new@mergington.edu for Chess Club'')]"
      and acts' = "snd ?su"]
  note u = handlers_frame [where acts = activities and activity_name = "''Chess Club''"
      and email = "''michael@mergington.edu''" and reqs = "[]"
      and msg = "[(''message'', ''Removed michael@mergington.edu from Chess Club'')]"
      and acts' = "snd ?un"]
  note k1 = s [THEN conjunct2, THEN conjunct1]
  note k2 = u [THEN conjunct2, THEN conjunct2, THEN conjunct1]
  note f1 = s [THEN conjunct2, THEN conjunct2, THEN conjunct2, THEN conjunct2, THEN mp,
      OF disjI1, OF su]
  note f2 = u [THEN conjunct2, THEN conjunct2, THEN conjunct2, THEN conjunct2, THEN mp,
      OF disjI2, OF un]
  note g1 = f1 [THEN conjunct2, THEN spec, THEN mp, OF other]
  note g2 = f2 [THEN conjunct2, THEN spec, THEN mp, OF other]
  show ?thesis
    by (intro conjI k1 k2 f1 [THEN conjunct1] g1 f2 [THEN conjunct1] g2)
qed

section \<open>Unregister removes the first occurrence; re-enrolling moves the email to the end\<close>

text \<open>
  C10. A successful unregister removes exactly one element, the first occurrence of the
  email, and keeps the others in their order: the participants \<open>xs @ email # ys\<close> with
  the email not in \<open>xs\<close> become \<open>xs @ ys\<close>. When the unregister and the signup of the same
  email that follows both succeed and the email was not the last participant, the
  participants afterwards are the old ones without the email, followed by the email:
  the same set, but not the sequence before.
\<close>

theorem unregister_first_occurrence:
  "(map_of acts activity_name = Some a \<and> email \<in> set (participants a) \<longrightarrow>
      (\<exists>xs ys msg acts' a'.
          participants a = xs @ email # ys \<and> email \<notin> set xs
          \<and> unregister_from_activity acts activity_name email = (Inr msg, acts')
          \<and> map_of acts' activity_name = Some a' \<and> participants a' = xs @ ys))
   \<and> (map_of acts activity_name = Some a
        \<and> unregister_from_activity acts activity_name email = (Inr m1, s1)
        \<and> signup_for_activity s1 activity_name email = (Inr m2, s2)
        \<and> last (participants a) \<noteq> email \<longrightarrow>
      (\<exists>a2. map_of s2 activity_name = Some a2
          \<and> participants a2 = remove1 email (participants a) @ [email]
          \<and> participants a2 \<noteq> participants a
          \<and> set (participants a2) = set (participants a)))"
proof (intro conjI impI)
  assume h: "map_of acts activity_name = Some a \<and> email \<in> set (participants a)"
  let ?a' = "a\<lparr>participants := remove1 email (participants a)\<rparr>"
  from h have mem: "email \<in> set (participants a)" by simp
  from remove1_first_occurrence [OF mem]
  obtain xs ys where split: "participants a = xs @ email # ys" "email \<notin> set xs"
    and rem: "remove1 email (participants a) = xs @ ys"
    by blast
  from h have "unregister_from_activity acts activity_name email =
      (Inr [(''message'', ''Removed '' @ email @ '' from '' @ activity_name)],
       AList.update activity_name ?a' acts)"
    by (simp add: unregister_success)
  moreover have "map_of (AList.update activity_name ?a' acts) activity_name = Some ?a'"
    by (rule map_of_update_same)
  moreover have "participants ?a' = xs @ ys" using rem by simp
  ultimately show "\<exists>xs ys msg acts' a'.
          participants a = xs @ email # ys \<and> email \<notin> set xs
          \<and> unregister_from_activity acts activity_name email = (Inr msg, acts')
          \<and> map_of acts' activity_name = Some a' \<and> participants a' = xs @ ys"
    using split by blast
next
  assume h: "map_of acts activity_name = Some a
        \<and> unregister_from_activity acts activity_name email = (Inr m1, s1)
        \<and> signup_for_activity s1 activity_name email = (Inr m2, s2)
        \<and> last (participants a) \<noteq> email"
  let ?ps = "participants a"
  let ?a1 = "a\<lparr>participants := remove1 email ?ps\<rparr>"
  from h have un: "unregister_from_activity acts activity_name email = (Inr m1, s1)"
    and look: "map_of acts activity_name = Some a" by simp_all
  from un obtain b where "map_of acts activity_name = Some b"
    and "email \<in> set (participants b)"
    and "s1 = AList.update activity_name (b\<lparr>participants := remove1 email (participants b)\<rparr>) acts"
    by (rule unregister_InrD)
  with look have mem: "email \<in> set ?ps" and s1: "s1 = AList.update activity_name ?a1 acts"
    by simp_all
  have look1: "map_of s1 activity_name = Some ?a1"
    unfolding s1 by (rule map_of_update_same)
  let ?a2 = "?a1\<lparr>participants := participants ?a1 @ [email]\<rparr>"
  from h have su: "signup_for_activity s1 activity_name email = (Inr m2, s2)" by simp
  from su obtain c where "map_of s1 activity_name = Some c"
    and "s2 = AList.update activity_name (c\<lparr>participants := participants c @ [email]\<rparr>) s1"
    by (rule signup_InrD)
  with look1 have s2: "s2 = AList.update activity_name ?a2 s1" by simp
  have look2: "map_of s2 activity_name = Some ?a2"
    unfolding s2 by (rule map_of_update_same)
  have seq: "participants ?a2 = remove1 email ?ps @ [email]" by simp
  have lastne: "last ?ps \<noteq> email" using h by simp
  have last2: "last (participants ?a2) = email" by simp
  have neq: "participants ?a2 \<noteq> ?ps"
  proof
    assume "participants ?a2 = ?ps"
    then have "last (participants ?a2) = last ?ps" by (rule arg_cong)
    with last2 lastne show False by simp
  qed
  have "set (participants ?a2) = set ?ps" using mem by (simp add: set_remove1_readd)
  with look2 seq neq show "\<exists>a2. map_of s2 activity_name = Some a2
          \<and> participants a2 = remove1 email (participants a) @ [email]
          \<and> participants a2 \<noteq> participants a
          \<and> set (participants a2) = set (participants a)"
    by blast
qed

text \<open>
  Chess Club in the seed registry, \<^verbatim>\<open>michael\<close> before \<^verbatim>\<open>daniel\<close>: after the round trip
  \<^verbatim>\<open>michael\<close> comes last.
\<close>

theorem unregister_first_occurrence_witness:
  "(\<exists>xs ys msg acts' a'.
      [''michael@mergington.edu'', ''daniel@mergington.edu''] = xs @ ''michael@mergington.edu'' # ys
      \<and> ''michael@mergington.edu'' \<notin> set xs
      \<and> unregister_from_activity activities ''Chess Club'' ''michael@mergington.edu''
          = (Inr msg, acts')
      \<and> map_of acts' ''Chess Club'' = Some a' \<and> participants a' = xs @ ys)
   \<and> (\<exists>a2.
        map_of (snd (signup_for_activity
                  (snd (unregister_from_activity activities ''Chess Club''
                          ''michael@mergington.edu''))
                  ''Chess Club'' ''michael@mergington.edu'')) ''Chess Club'' = Some a2
        \<and> participants a2 = [''daniel@mergington.edu'', ''michael@mergington.edu'']
        \<and> participants a2 \<noteq> [''michael@mergington.edu'', ''daniel@mergington.edu'']
        \<and> set (participants a2) = {''michael@mergington.edu'', ''daniel@mergington.edu''})"
proof -
  let ?chess = "\<lparr>description = ''Learn strategies and compete in chess tournaments'',
           schedule = ''Fridays, 3:30 PM - 5:00 PM'',
           max_participants = 12,
           participants = [''michael@mergington.edu'', ''daniel@mergington.edu'']\<rparr>"
  let ?un = "unregister_from_activity activities ''Chess Club'' ''michael@mergington.edu''"
  let ?su = "signup_for_activity (snd ?un) ''Chess Club'' ''michael@mergington.edu''"
  let ?c1 = "?chess\<lparr>participants := [''daniel@mergington.edu'']\<rparr>"
  have un: "?un = (Inr [(''message'', ''Removed michael@mergington.edu from Chess Club'')], snd ?un)"
    and s1: "snd ?un = AList.update ''Chess Club'' ?c1 activities"
    using unregister_success [OF seed_chess, of "''michael@mergington.edu''"] by simp_all
  have look1: "map_of (snd ?un) ''Chess Club'' = Some ?c1"
    unfolding s1 by (rule map_of_update_same)
  have su: "?su = (Inr [(''message'', ''Signed up michael@mergington.edu for Chess Club'')], snd ?su)"
    using signup_success [OF look1, of "''michael@mergington.edu''"] by simp
  note t = unregister_first_occurrence [where acts = activities
      and activity_name = "''Chess Club''" and a = ?chess and email = "''michael@mergington.edu''"
      and ?m1.0 = "[(''message'', ''Removed michael@mergington.edu from Chess Club'')]"
      and ?s1.0 = "snd ?un"
      and ?m2.0 = "[(''message'', ''Signed up michael@mergington.edu for Chess Club'')]"
      and ?s2.0 = "snd ?su"]
  have member: "map_of activities ''Chess Club'' = Some ?chess
      \<and> ''michael@mergington.edu'' \<in> set (participants ?chess)"
    by (simp add: seed_chess)
  have lastne: "last (participants ?chess) \<noteq> ''michael@mergington.edu''" by simp
  have trip: "map_of activities ''Chess Club'' = Some ?chess
      \<and> ?un = (Inr [(''message'', ''Removed michael@mergington.edu from Chess Club'')], snd ?un)
      \<and> ?su = (Inr [(''message'', ''Signed up michael@mergington.edu for Chess Club'')], snd ?su)
      \<and> last (participants ?chess) \<noteq> ''michael@mergington.edu''"
    by (intro conjI seed_chess un su lastne)
  have A: "\<exists>xs ys msg acts' a'.
      [''michael@mergington.edu'', ''daniel@mergington.edu''] = xs @ ''michael@mergington.edu'' # ys
      \<and> ''michael@mergington.edu'' \<notin> set xs
      \<and> ?un = (Inr msg, acts')
      \<and> map_of acts' ''Chess Club'' = Some a' \<and> participants a' = xs @ ys"
    using t [THEN conjunct1, THEN mp, OF member] by (simp only: activity.select_convs)
  from t [THEN conjunct2, THEN mp, OF trip] obtain a2
    where 1: "map_of (snd ?su) ''Chess Club'' = Some a2"
      and 2: "participants a2 = remove1 ''michael@mergington.edu'' (participants ?chess)
                                 @ [''michael@mergington.edu'']"
    by (elim exE conjE)
  from 2 have 3: "participants a2 = [''daniel@mergington.edu'', ''michael@mergington.edu'']"
    by simp
  from 3 have 4: "participants a2 \<noteq> [''michael@mergington.edu'', ''daniel@mergington.edu'']"
    by simp
  from 3 have 5: "set (participants a2) = {''michael@mergington.edu'', ''daniel@mergington.edu''}"
    by (simp add: insert_commute)
  have B: "\<exists>a2. map_of (snd ?su) ''Chess Club'' = Some a2
        \<and> participants a2 = [''daniel@mergington.edu'', ''michael@mergington.edu'']
        \<and> participants a2 \<noteq> [''michael@mergington.edu'', ''daniel@mergington.edu'']
        \<and> set (participants a2) = {''michael@mergington.edu'', ''daniel@mergington.edu''}"
    by (rule exI [of _ a2]) (intro conjI 1 3 4 5)
  show ?thesis by (intro conjI A B)
qed

end
